theory Spec2Isabelle
  imports Complex_Main "HOL-Library.Multiset" "HOL-Library.Sublist" "HOL-Library.AList"
begin

section \<open>Common values\<close>

text \<open>
  The module \<^verbatim>\<open>notebooks/utils.py\<close> is a set of helpers over pandas DataFrames and
  numpy arrays. The embedding follows pandas 2.x. Numbers are exact reals: the rounding
  of IEEE doubles and the wrap-around of int64 are outside the model, while the special
  values that decide control flow (NaN, the infinities, a missing entry) are values of
  the model. Output written with \<^verbatim>\<open>print\<close> is left out, except where formatting the
  message evaluates an expression that can raise.
\<close>

datatype error =
    KeyError string
  | TypeError
  | AttributeError
  | ValueError
  | ZeroDivisionError
  | FileNotFoundError

section \<open>Statistics helpers\<close>

subsection \<open>gini\_coefficient\<close>

text \<open>
  A numpy float: a finite number, an infinity, or NaN. Only the two operations of the
  return expression of \<^verbatim>\<open>gini_coefficient\<close> are needed: numpy's true division, which
  gives NaN or an infinity on a zero divisor (with a warning, never an exception), and the
  subtraction of a Python float.
\<close>

datatype npfloat = Fin real | PosInf | NegInf | NaN

definition true_divide :: "real \<Rightarrow> real \<Rightarrow> npfloat" where
  "true_divide a b =
     (if b \<noteq> 0 then Fin (a / b)
      else if a = 0 then NaN
      else if 0 < a then PosInf else NegInf)"

fun np_sub :: "npfloat \<Rightarrow> real \<Rightarrow> npfloat" where
  "np_sub (Fin a) b = Fin (a - b)"
| "np_sub PosInf b = PosInf"
| "np_sub NegInf b = NegInf"
| "np_sub NaN b = NaN"

text \<open>\<^verbatim>\<open>np.arange(1, n + 1)\<close>\<close>

definition arange1 :: "nat \<Rightarrow> real list" where
  "arange1 n = map real [1..<n + 1]"

text \<open>
  \<^verbatim>\<open>
  sorted_values = np.sort(values)
  n = len(values)
  index = np.arange(1, n + 1)
  return (2 * np.sum(index * sorted_values)) / (n * np.sum(sorted_values)) - (n + 1) / n
  \<close>
  The left operand of the subtraction is evaluated first and never raises; the right
  operand \<^verbatim>\<open>(n + 1) / n\<close> is a division of Python integers, which raises
  ZeroDivisionError for the empty input.
\<close>

definition gini_coefficient :: "real list \<Rightarrow> error + npfloat" where
  "gini_coefficient values =
     (let sorted_values = sort values;
          n = length values;
          index = arange1 n;
          q = true_divide (2 * sum_list (map2 (*) index sorted_values))
                          (real n * sum_list sorted_values)
      in if n = 0 then Inl ZeroDivisionError
         else Inr (np_sub q ((real n + 1) / real n)))"

subsection \<open>identify\_spikes\<close>





fun nan_gt :: "real option \<Rightarrow> real option \<Rightarrow> bool" where
  "nan_gt (Some x) (Some t) = (t < x)"
| "nan_gt _ _ = False"




section \<open>Tabular data\<close>

text \<open>
  A DataFrame is a row index and a list of named columns; a column is a dtype and its
  cells. The dtypes are the ones the pipeline meets: \<^verbatim>\<open>read_csv\<close> produces int64,
  float64, bool and object columns, \<^verbatim>\<open>to_datetime\<close> produces datetime64[ns], and the
  \<^verbatim>\<open>.dt\<close> accessors produce int32. A missing entry (NaN, None, NaT) is \<open>Null\<close>.
  A timestamp is a count of nanoseconds since 1970-01-01, a calendar date a count of days.
  A \<open>string\<close> stands for a Python string, one \<open>char\<close> for each code point.
\<close>

datatype dtype = Int64 | Int32 | Float64 | Bool | Object | Datetime64

datatype cell = Null | Num real | Str string | BoolV bool | Ts int | DateV int

record column =
  dtype :: dtype
  cells :: "cell list"

record dataframe =
  index :: "int list"
  columns :: "(string \<times> column) list"

definition len :: "dataframe \<Rightarrow> nat" where
  "len df = length (index df)"

definition column_names :: "dataframe \<Rightarrow> string list" where
  "column_names df = map fst (columns df)"

text \<open>\<^verbatim>\<open>df[name]\<close>: the caller raises KeyError on \<open>None\<close>.\<close>

definition getitem :: "string \<Rightarrow> dataframe \<Rightarrow> column option" where
  "getitem name df = map_of (columns df) name"

text \<open>
  \<^verbatim>\<open>df[name] = series\<close>: an existing column is replaced where it stands, a new one is
  appended.
\<close>

definition setitem :: "string \<Rightarrow> column \<Rightarrow> dataframe \<Rightarrow> dataframe" where
  "setitem name c df = df\<lparr>columns := AList.update name c (columns df)\<rparr>"

definition isnull :: "cell \<Rightarrow> bool" where
  "isnull c = (c = Null)"

definition null_count :: "column \<Rightarrow> nat" where
  "null_count c = length (filter isnull (cells c))"

text \<open>Selection of rows by a boolean mask, \<^verbatim>\<open>df[mask]\<close>; the index labels are kept.\<close>

definition select :: "bool list \<Rightarrow> 'a list \<Rightarrow> 'a list" where
  "select keep xs = map fst (filter snd (zip xs keep))"

definition take_rows :: "bool list \<Rightarrow> dataframe \<Rightarrow> dataframe" where
  "take_rows keep df =
     \<lparr>index = select keep (index df),
      columns = map (\<lambda>(name, c). (name, c\<lparr>cells := select keep (cells c)\<rparr>)) (columns df)\<rparr>"

definition row_at :: "dataframe \<Rightarrow> nat \<Rightarrow> cell list" where
  "row_at df i = map (\<lambda>(name, c). cells c ! i) (columns df)"

definition rows :: "dataframe \<Rightarrow> cell list list" where
  "rows df = map (row_at df) [0..<len df]"

text \<open>
  A frame is well formed when its column names are distinct and every column has one
  cell per index label; it is well typed when a column of a numeric dtype holds only
  numbers and missing entries.
\<close>

definition wf_df :: "dataframe \<Rightarrow> bool" where
  "wf_df df =
     (distinct (column_names df) \<and>
      list_all (\<lambda>(name, c). length (cells c) = len df) (columns df))"

fun is_num :: "cell \<Rightarrow> bool" where
  "is_num (Num x) = True"
| "is_num _ = False"




subsection \<open>Missing values and duplicates\<close>

text \<open>\<^verbatim>\<open>df.dropna(subset=[name])\<close> and \<^verbatim>\<open>df.dropna()\<close>.\<close>

definition dropna_subset :: "string \<Rightarrow> dataframe \<Rightarrow> dataframe" where
  "dropna_subset name df =
     (case getitem name df of
        None \<Rightarrow> df
      | Some c \<Rightarrow> take_rows (map (\<lambda>x. \<not> isnull x) (cells c)) df)"

definition dropna :: "dataframe \<Rightarrow> dataframe" where
  "dropna df = take_rows (map (\<lambda>r. \<not> list_ex isnull r) (rows df)) df"

text \<open>
  \<^verbatim>\<open>duplicated()\<close> marks every row that equals an earlier one (missing entries compare
  equal to each other); \<^verbatim>\<open>drop_duplicates()\<close> keeps the first occurrences. pandas
  returns a frame with no rows or no columns unchanged.
\<close>

fun duplicated_from :: "'a list \<Rightarrow> 'a list \<Rightarrow> bool list" where
  "duplicated_from seen [] = []"
| "duplicated_from seen (r # rs) = (r \<in> set seen) # duplicated_from (r # seen) rs"

definition duplicated :: "'a list \<Rightarrow> bool list" where
  "duplicated rs = duplicated_from [] rs"

definition frame_empty :: "dataframe \<Rightarrow> bool" where
  "frame_empty df = (index df = [] \<or> columns df = [])"

definition drop_duplicates :: "dataframe \<Rightarrow> dataframe" where
  "drop_duplicates df =
     (if frame_empty df then df
      else take_rows (map Not (duplicated (rows df))) df)"

text \<open>
  \<^verbatim>\<open>Series.median()\<close> skips missing entries; the median of no values is NaN
  (\<open>None\<close>).
\<close>

definition numbers :: "cell list \<Rightarrow> real list" where
  "numbers cs = List.map_filter (\<lambda>c. case c of Num x \<Rightarrow> Some x | _ \<Rightarrow> None) cs"

definition median :: "column \<Rightarrow> real option" where
  "median c =
     (let s = sort (numbers (cells c)); n = length s
      in if n = 0 then None
         else if odd n then Some (s ! (n div 2))
         else Some ((s ! (n div 2 - 1) + s ! (n div 2)) / 2))"

text \<open>
  \<^verbatim>\<open>fillna(median)\<close> on a numeric column: filling with NaN changes nothing.
  \<^verbatim>\<open>fillna('Unknown')\<close>: a column that is not of object dtype is cast to object.
  The source fills through \<^verbatim>\<open>df_clean[col].fillna(..., inplace=True)\<close>, which
  pandas 2.x applies to the frame.
\<close>

definition fillna_num :: "real option \<Rightarrow> column \<Rightarrow> column" where
  "fillna_num m c =
     (case m of
        None \<Rightarrow> c
      | Some v \<Rightarrow> c\<lparr>cells := map (\<lambda>x. if isnull x then Num v else x) (cells c)\<rparr>)"

definition fillna_str :: "string \<Rightarrow> column \<Rightarrow> column" where
  "fillna_str v c =
     \<lparr>dtype = Object, cells = map (\<lambda>x. if isnull x then Str v else x) (cells c)\<rparr>"

subsection \<open>Dates\<close>

text \<open>
  \<^verbatim>\<open>pd.to_datetime(series, errors='coerce')\<close>. How pandas reads a value as a date is a
  parameter: \<open>parse\<close> is given the whole column (pandas infers a format from it) and
  the value. Timestamps and missing entries pass through; a value that cannot be read
  becomes NaT. The result is a datetime64[ns] column; time zones are outside the model.
\<close>

type_synonym date_parser = "cell list \<Rightarrow> cell \<Rightarrow> int option"

fun coerce_datetime :: "(cell \<Rightarrow> int option) \<Rightarrow> cell \<Rightarrow> cell" where
  "coerce_datetime p Null = Null"
| "coerce_datetime p (Ts t) = Ts t"
| "coerce_datetime p c = (case p c of None \<Rightarrow> Null | Some t \<Rightarrow> Ts t)"

definition to_datetime :: "date_parser \<Rightarrow> column \<Rightarrow> column" where
  "to_datetime parse c =
     \<lparr>dtype = Datetime64, cells = map (coerce_datetime (parse (cells c))) (cells c)\<rparr>"

section \<open>Loader\<close>

text \<open>
  \<^verbatim>\<open>pd.read_csv(file_path, nrows=...)\<close>. The file system maps a path to the header and
  the records of the file, in file order, or to the error that reading it raises. What
  pandas builds from the records it has read (the dtype of each column is inferred from
  those records only) is the parameter \<open>frame_of\<close>. With \<^verbatim>\<open>nrows=n\<close> pandas reads
  the first \<open>n\<close> records and refuses a negative \<open>n\<close>.
\<close>

type_synonym csv = "string list \<times> string list list"

type_synonym frame_builder = "string list \<Rightarrow> string list list \<Rightarrow> dataframe"

definition read_csv ::
  "frame_builder \<Rightarrow> (string \<Rightarrow> error + csv) \<Rightarrow> string \<Rightarrow> int option \<Rightarrow> error + dataframe" where
  "read_csv frame_of fs file_path nrows =
     (case fs file_path of
        Inl e \<Rightarrow> Inl e
      | Inr (header, records) \<Rightarrow>
          (case nrows of
             None \<Rightarrow> Inr (frame_of header records)
           | Some n \<Rightarrow>
               if n < 0 then Inl ValueError
               else Inr (frame_of header (take (nat n) records))))"

text \<open>
  \<^verbatim>\<open>
  if sample_size:
      df = pd.read_csv(file_path, nrows=sample_size)
  else:
      df = pd.read_csv(file_path)
  return df
  \<close>
  \<^verbatim>\<open>sample_size\<close> is \<^verbatim>\<open>None\<close> or an integer; both \<^verbatim>\<open>None\<close> and \<^verbatim>\<open>0\<close> are false.
\<close>

definition truthy :: "int option \<Rightarrow> bool" where
  "truthy sample_size = (case sample_size of None \<Rightarrow> False | Some n \<Rightarrow> n \<noteq> 0)"

definition load_data ::
  "frame_builder \<Rightarrow> (string \<Rightarrow> error + csv) \<Rightarrow> string \<Rightarrow> int option \<Rightarrow> error + dataframe" where
  "load_data frame_of fs file_path sample_size =
     (if truthy sample_size then read_csv frame_of fs file_path sample_size
      else read_csv frame_of fs file_path None)"

section \<open>Quality Checker\<close>









section \<open>Cleaner\<close>

text \<open>
  Step 1 of \<^verbatim>\<open>clean_data\<close>:
  \<^verbatim>\<open>
  if fix_dates and 'date' in df_clean.columns:
      df_clean['date'] = pd.to_datetime(df_clean['date'], errors='coerce')
      invalid_dates = df_clean['date'].isna().sum()
      if invalid_dates > 0:
          if handle_missing == 'drop':
              df_clean = df_clean.dropna(subset=['date'])
  \<close>
\<close>

definition convert_dates :: "date_parser \<Rightarrow> string \<Rightarrow> bool \<Rightarrow> dataframe \<Rightarrow> dataframe" where
  "convert_dates parse handle_missing fix_dates df_clean =
     (if fix_dates \<and> ''date'' \<in> set (column_names df_clean) then
        (case getitem ''date'' df_clean of
           None \<Rightarrow> df_clean
         | Some d \<Rightarrow>
             (let converted = to_datetime parse d;
                  df1 = setitem ''date'' converted df_clean;
                  invalid_dates = null_count converted
              in if 0 < invalid_dates \<and> handle_missing = ''drop''
                 then dropna_subset ''date'' df1 else df1))
      else df_clean)"

text \<open>
  Step 2, the body of the loop of the \<^verbatim>\<open>fill\<close> policy:
  \<^verbatim>\<open>
  for col in df_clean.columns:
      if df_clean[col].isnull().sum() > 0:
          if df_clean[col].dtype in ['int64', 'float64']:
              df_clean[col].fillna(df_clean[col].median(), inplace=True)
          else:
              df_clean[col].fillna('Unknown', inplace=True)
  \<close>
\<close>

definition fill_column :: "string \<Rightarrow> dataframe \<Rightarrow> dataframe" where
  "fill_column col df_clean =
     (case getitem col df_clean of
        None \<Rightarrow> df_clean
      | Some c \<Rightarrow>
          if 0 < null_count c then
            (if dtype c = Int64 \<or> dtype c = Float64
             then setitem col (fillna_num (median c) c) df_clean
             else setitem col (fillna_str ''Unknown'' c) df_clean)
          else df_clean)"

definition fill_missing :: "dataframe \<Rightarrow> dataframe" where
  "fill_missing df_clean = fold fill_column (column_names df_clean) df_clean"

text \<open>
  \<^verbatim>\<open>
  if handle_missing != 'report':
      if handle_missing == 'drop':
          df_clean = df_clean.dropna()
      elif handle_missing == 'fill':
          ...
  \<close>
\<close>

definition handle_missing_values :: "string \<Rightarrow> dataframe \<Rightarrow> dataframe" where
  "handle_missing_values handle_missing df_clean =
     (if handle_missing \<noteq> ''report'' then
        (if handle_missing = ''drop'' then dropna df_clean
         else if handle_missing = ''fill'' then fill_missing df_clean
         else df_clean)
      else df_clean)"

text \<open>
  \<^verbatim>\<open>clean_data(df, remove_duplicates=True, handle_missing='report', fix_dates=True)\<close>:
  the three steps in the order of the source, on a copy of the argument.
\<close>

definition clean_data :: "date_parser \<Rightarrow> dataframe \<Rightarrow> bool \<Rightarrow> string \<Rightarrow> bool \<Rightarrow> dataframe" where
  "clean_data parse df remove_duplicates handle_missing fix_dates =
     (let df_clean = df;
          df_clean = convert_dates parse handle_missing fix_dates df_clean;
          df_clean = handle_missing_values handle_missing df_clean;
          df_clean = (if remove_duplicates then drop_duplicates df_clean else df_clean)
      in df_clean)"

section \<open>Feature Builder\<close>

subsection \<open>The datetime accessors\<close>

text \<open>
  The fields of a timestamp in the proleptic Gregorian calendar, from the day count
  since 1970-01-01 (a Thursday).
\<close>

definition ns_per_day :: int where
  "ns_per_day = 86400 * 1000000000"

definition ns_per_hour :: int where
  "ns_per_hour = 3600 * 1000000000"

definition civil_from_days :: "int \<Rightarrow> int \<times> int \<times> int" where
  "civil_from_days z0 =
     (let z = z0 + 719468;
          era = z div 146097;
          doe = z - era * 146097;
          yoe = (doe - doe div 1460 + doe div 36524 - doe div 146096) div 365;
          y = yoe + era * 400;
          doy = doe - (365 * yoe + yoe div 4 - yoe div 100);
          mp = (5 * doy + 2) div 153;
          d = doy - (153 * mp + 2) div 5 + 1;
          m = (if mp < 10 then mp + 3 else mp - 9)
      in (if m \<le> 2 then y + 1 else y, m, d))"

definition day_names :: "string list" where
  "day_names = [''Monday'', ''Tuesday'', ''Wednesday'', ''Thursday'', ''Friday'',
                ''Saturday'', ''Sunday'']"

definition day_name :: "int \<Rightarrow> string" where
  "day_name t = day_names ! nat ((t div ns_per_day + 3) mod 7)"

text \<open>
  An accessor over a datetime column: NaT gives a missing entry. The integer fields are
  int32 columns, or float64 when an entry is missing; the names and the dates are object
  columns.
\<close>

definition dt_field :: "(int \<Rightarrow> cell) \<Rightarrow> cell \<Rightarrow> cell" where
  "dt_field f x = (case x of Ts t \<Rightarrow> f t | _ \<Rightarrow> Null)"

definition int_column :: "dtype \<Rightarrow> cell list \<Rightarrow> column" where
  "int_column d cs = \<lparr>dtype = (if list_ex isnull cs then Float64 else d), cells = cs\<rparr>"

definition dt_year :: "column \<Rightarrow> column" where
  "dt_year c =
     int_column Int32
       (map (dt_field (\<lambda>t. Num (of_int (fst (civil_from_days (t div ns_per_day)))))) (cells c))"

definition dt_month :: "column \<Rightarrow> column" where
  "dt_month c =
     int_column Int32
       (map (dt_field (\<lambda>t. Num (of_int (fst (snd (civil_from_days (t div ns_per_day)))))))
          (cells c))"

definition dt_day :: "column \<Rightarrow> column" where
  "dt_day c =
     int_column Int32
       (map (dt_field (\<lambda>t. Num (of_int (snd (snd (civil_from_days (t div ns_per_day)))))))
          (cells c))"

definition dt_hour :: "column \<Rightarrow> column" where
  "dt_hour c =
     int_column Int32
       (map (dt_field (\<lambda>t. Num (of_int ((t mod ns_per_day) div ns_per_hour)))) (cells c))"

definition dt_day_name :: "column \<Rightarrow> column" where
  "dt_day_name c = \<lparr>dtype = Object, cells = map (dt_field (\<lambda>t. Str (day_name t))) (cells c)\<rparr>"

definition dt_date :: "column \<Rightarrow> column" where
  "dt_date c =
     \<lparr>dtype = Object, cells = map (dt_field (\<lambda>t. DateV (t div ns_per_day))) (cells c)\<rparr>"

subsection \<open>The string accessors\<close>

text \<open>
  \<^verbatim>\<open>.str\<close> is refused (AttributeError) on a column that is not of object dtype.
  \<^verbatim>\<open>.str.len()\<close> is the length of a string and NaN for anything else;
  \<^verbatim>\<open>.str.split().str.len()\<close> is the number of the maximal runs of characters that
  are not whitespace.
\<close>

definition is_space :: "char \<Rightarrow> bool" where
  "is_space ch = (let k = (of_char ch :: nat) in (9 \<le> k \<and> k \<le> 13) \<or> (28 \<le> k \<and> k \<le> 32))"

fun split_from :: "string \<Rightarrow> string \<Rightarrow> string list" where
  "split_from cur [] = (if cur = [] then [] else [rev cur])"
| "split_from cur (ch # cs) =
     (if is_space ch then (if cur = [] then split_from [] cs else rev cur # split_from [] cs)
      else split_from (ch # cur) cs)"

definition split :: "string \<Rightarrow> string list" where
  "split s = split_from [] s"

definition str_len :: "column \<Rightarrow> column" where
  "str_len c =
     int_column Int64
       (map (\<lambda>x. case x of Str s \<Rightarrow> Num (real (length s)) | _ \<Rightarrow> Null) (cells c))"

definition str_split_len :: "column \<Rightarrow> column" where
  "str_split_len c =
     int_column Int64
       (map (\<lambda>x. case x of Str s \<Rightarrow> Num (real (length (split s))) | _ \<Rightarrow> Null) (cells c))"

subsection \<open>preprocess\_data\<close>

text \<open>
  \<^verbatim>\<open>df[target] = f(df[source])\<close>, for a source column that the surrounding test has
  found present.
\<close>

definition assign_from :: "string \<Rightarrow> string \<Rightarrow> (column \<Rightarrow> column) \<Rightarrow> dataframe \<Rightarrow> dataframe" where
  "assign_from source target f df =
     (case getitem source df of None \<Rightarrow> df | Some c \<Rightarrow> setitem target (f c) df)"

text \<open>
  \<^verbatim>\<open>
  if 'date' in df.columns and df['date'].dtype == 'datetime64[ns]':
      df['year'] = df['date'].dt.year
      df['month'] = df['date'].dt.month
      df['day'] = df['date'].dt.day
      df['day_of_week'] = df['date'].dt.day_name()
      df['hour'] = df['date'].dt.hour
      df['date_only'] = df['date'].dt.date
  \<close>
\<close>

definition temporal_features :: "dataframe \<Rightarrow> dataframe" where
  "temporal_features df =
     (case getitem ''date'' df of
        None \<Rightarrow> df
      | Some d \<Rightarrow>
          if dtype d = Datetime64 then
            (let df = assign_from ''date'' ''year'' dt_year df;
                 df = assign_from ''date'' ''month'' dt_month df;
                 df = assign_from ''date'' ''day'' dt_day df;
                 df = assign_from ''date'' ''day_of_week'' dt_day_name df;
                 df = assign_from ''date'' ''hour'' dt_hour df;
                 df = assign_from ''date'' ''date_only'' dt_date df
             in df)
          else df)"

text \<open>
  \<^verbatim>\<open>
  if 'headline' in df.columns:
      df['headline_length'] = df['headline'].str.len()
      df['headline_word_count'] = df['headline'].str.split().str.len()
  \<close>
  The function works on the caller's frame, so the result is the state of that frame and
  the exception, if one was raised.
\<close>

definition headline_features :: "dataframe \<Rightarrow> dataframe \<times> error option" where
  "headline_features df =
     (case getitem ''headline'' df of
        None \<Rightarrow> (df, None)
      | Some h \<Rightarrow>
          if dtype h \<noteq> Object then (df, Some AttributeError)
          else
            (let df = setitem ''headline_length'' (str_len h) df
             in case getitem ''headline'' df of
                  None \<Rightarrow> (df, Some (KeyError ''headline''))
                | Some h \<Rightarrow>
                    if dtype h \<noteq> Object then (df, Some AttributeError)
                    else (setitem ''headline_word_count'' (str_split_len h) df, None)))"

text \<open>
  \<^verbatim>\<open>print(f"Date range: {df['date'].min()} to {df['date'].max()}")\<close> reads the
  \<^verbatim>\<open>date\<close> column whatever the tests above found: KeyError when the frame has none.
  The minimum and maximum of an object column compare its entries (a missing entry
  stands in as an infinity), which raises TypeError when they are of different kinds.
\<close>

fun kind :: "cell \<Rightarrow> nat" where
  "kind Null = 0"
| "kind (Num x) = 0"
| "kind (BoolV b) = 0"
| "kind (Str s) = 1"
| "kind (Ts t) = 2"
| "kind (DateV d) = 3"

definition comparable :: "column \<Rightarrow> bool" where
  "comparable c =
     (if dtype c = Object
      then (case cells c of [] \<Rightarrow> True | x # xs \<Rightarrow> list_all (\<lambda>y. kind y = kind x) xs)
      else True)"

definition date_range_message :: "dataframe \<Rightarrow> error option" where
  "date_range_message df =
     (case getitem ''date'' df of
        None \<Rightarrow> Some (KeyError ''date'')
      | Some d \<Rightarrow> if comparable d then None else Some TypeError)"

definition preprocess_data :: "dataframe \<Rightarrow> dataframe \<times> error option" where
  "preprocess_data df =
     (let df = temporal_features df
      in case headline_features df of
           (df, Some e) \<Rightarrow> (df, Some e)
         | (df, None) \<Rightarrow> (df, date_range_message df))"

section \<open>The specification's formulas\<close>




text \<open>
  The fill policy in the specification's words, column by column: a column with at least
  one missing entry is filled with its median when it is an int64 or float64 column (the
  numeric dtypes the test of the source names), and with the string \<^verbatim>\<open>Unknown\<close>
  otherwise. A median that is NaN fills nothing.
\<close>

definition fill_values :: "column \<Rightarrow> column" where
  "fill_values c =
     (if list_ex isnull (cells c) then
        (if dtype c = Int64 \<or> dtype c = Float64 then
           (case median c of
              None \<Rightarrow> c
            | Some m \<Rightarrow> c\<lparr>cells := map (\<lambda>x. if x = Null then Num m else x) (cells c)\<rparr>)
         else \<lparr>dtype = Object,
               cells = map (\<lambda>x. if x = Null then Str ''Unknown'' else x) (cells c)\<rparr>)
      else c)"

text \<open>A frame with each column replaced by a function of its name and itself.\<close>

definition apply_columns :: "(string \<Rightarrow> column \<Rightarrow> column) \<Rightarrow> dataframe \<Rightarrow> dataframe" where
  "apply_columns f df = df\<lparr>columns := map (\<lambda>(name, c). (name, f name c)) (columns df)\<rparr>"

text \<open>The columns that the Feature Builder derives.\<close>

definition derived_columns :: "string list" where
  "derived_columns =
     [''year'', ''month'', ''day'', ''day_of_week'', ''hour'', ''date_only'',
      ''headline_length'', ''headline_word_count'']"

section \<open>Vocabulary of the proofs\<close>

text \<open>
  The rows that \<^verbatim>\<open>drop_duplicates\<close> keeps, as a mask; the restriction of a column to
  the rows of a mask; the date conversion of step 1 as a function of a column and its
  name; and the datetime columns, whose cells are timestamps or missing.
\<close>

definition kept_rows :: "dataframe \<Rightarrow> bool list" where
  "kept_rows df =
     (if frame_empty df then map (\<lambda>i. True) (index df) else map Not (duplicated (rows df)))"

definition restrict :: "bool list \<Rightarrow> column \<Rightarrow> column" where
  "restrict keep c = c\<lparr>cells := select keep (cells c)\<rparr>"

definition convert_column :: "date_parser \<Rightarrow> bool \<Rightarrow> string \<Rightarrow> column \<Rightarrow> column" where
  "convert_column parse fix_dates name c =
     (if fix_dates \<and> name = ''date'' then to_datetime parse c else c)"

definition timestamps :: "column \<Rightarrow> bool" where
  "timestamps c =
     (dtype c = Datetime64 \<and>
      list_all (\<lambda>x. case x of Null \<Rightarrow> True | Ts t \<Rightarrow> True | _ \<Rightarrow> False) (cells c))"

text \<open>
  A small frame in the shape of the analyst ratings data, and a date parser that reads
  its two dates.
\<close>

definition sample_frame :: dataframe where
  "sample_frame =
     \<lparr>index = [0, 1, 2, 3],
      columns =
        [(''date'', \<lparr>dtype = Object,
                     cells = [Str ''2020-06-05'', Str ''2020-06-05'', Str ''n/a'', Str ''2020-06-06'']\<rparr>),
         (''headline'', \<lparr>dtype = Object,
                         cells = [Str ''Stocks rally'', Str ''Stocks rally'', Null, Str ''Fed holds'']\<rparr>),
         (''volume'', \<lparr>dtype = Float64, cells = [Num 10, Num 10, Null, Num 30]\<rparr>)]\<rparr>"

definition sample_parse :: date_parser where
  "sample_parse ctx x =
     (if x = Str ''2020-06-05'' then Some (18418 * ns_per_day)
      else if x = Str ''2020-06-06'' then Some (18419 * ns_per_day)
      else None)"

section \<open>Statistics helpers: properties\<close>











lemma sort_cong_mset: "mset xs = mset ys \<Longrightarrow> sort xs = sort ys"
  by (metis mset_sort properties_for_sort sorted_sort)



text \<open>
  Outside the precondition: the empty input raises ZeroDivisionError, and an input of
  zeros gives NaN.
\<close>

lemma gini_coefficient_empty: "gini_coefficient [] = Inl ZeroDivisionError"
  by (simp add: gini_coefficient_def)

lemma wsum_zero: "\<forall>x\<in>set xs. x = (0::real) \<Longrightarrow> sum_list (map2 (*) ys xs) = 0"
  by (induction ys xs rule: list_induct2') auto

lemma sorted_zero: "\<forall>x\<in>set xs. x = (0::real) \<Longrightarrow> sorted xs"
  by (induction xs) auto

lemma gini_coefficient_zero_sum:
  assumes ne: "xs \<noteq> []" and z: "\<forall>x\<in>set xs. x = 0"
  shows "gini_coefficient xs = Inr NaN"
proof -
  have s: "sort xs = xs" using sorted_zero [OF z] by (rule sorted_sort_id)
  have "sum_list xs = 0" using z by (induction xs) auto
  then show ?thesis
    using ne wsum_zero [OF z] by (simp add: gini_coefficient_def Let_def s true_divide_def)
qed

text \<open>
  Claim C10. \<^verbatim>\<open>gini_coefficient\<close> gives the same result for two sequences that are
  reorderings of each other.
\<close>

theorem gini_coefficient_permutation_invariant:
  "mset xs = mset ys \<Longrightarrow> gini_coefficient xs = gini_coefficient ys"
proof -
  assume p: "mset xs = mset ys"
  have "sort xs = sort ys" using p by (rule sort_cong_mset)
  moreover have "length xs = length ys" using p by (rule mset_eq_length)
  ultimately show ?thesis by (simp add: gini_coefficient_def)
qed

theorem gini_coefficient_permutation_invariant_witness:
  "mset [0, 10, 0, 0 :: real] = mset [0, 0, 0, 10] \<and>
   gini_coefficient [0, 10, 0, 0] = gini_coefficient [0, 0, 0, 10] \<and>
   gini_coefficient [0, 10, 0, 0] = Inr (Fin (3 / 4))"
proof -
  have p: "mset [0, 10, 0, 0 :: real] = mset [0, 0, 0, 10]" by simp
  have v: "gini_coefficient [0, 0, 0, 10] = Inr (Fin (3 / 4))"
    by (simp add: gini_coefficient_def Let_def true_divide_def arange1_def upt_conv_Cons)
  show ?thesis
    using p v gini_coefficient_permutation_invariant [OF p] by simp
qed



lemma nan_gt_None [simp]: "nan_gt v None = False"
  by (cases v) simp_all






section \<open>Loader: properties\<close>

text \<open>
  Claim C8. With a positive row cap \<open>n\<close>, \<^verbatim>\<open>load_data\<close> returns the frame built from
  the first \<open>n\<close> records of the file, in file order; with no cap, the frame built from
  all of them.
\<close>

theorem load_data_first_rows:
  "0 < n \<Longrightarrow> fs file_path = Inr (header, records) \<Longrightarrow>
     load_data frame_of fs file_path (Some n) = Inr (frame_of header (take (nat n) records)) \<and>
     load_data frame_of fs file_path None = Inr (frame_of header records)"
  by (simp add: load_data_def truthy_def read_csv_def)

theorem load_data_first_rows_witness:
  "load_data (\<lambda>h rs. \<lparr>index = map int [0..<length rs], columns = []\<rparr>)
     (\<lambda>p. Inr ([''headline''], [[''a''], [''b''], [''c'']])) ''f.csv'' (Some 2)
   = Inr \<lparr>index = [0, 1], columns = []\<rparr>"
  using load_data_first_rows [of 2 "\<lambda>p. Inr ([''headline''], [[''a''], [''b''], [''c'']])" "''f.csv''"
      "[''headline'']" "[[''a''], [''b''], [''c'']]"
      "\<lambda>h rs. \<lparr>index = map int [0..<length rs], columns = []\<rparr>"]
  by simp

text \<open>
  Claim C9. With \<^verbatim>\<open>sample_size=0\<close> the cap is ignored: \<^verbatim>\<open>load_data\<close> reads the whole
  file, as with no cap, where passing the cap on would have read no record.
\<close>

theorem load_data_zero_cap:
  "load_data frame_of fs file_path (Some 0) = load_data frame_of fs file_path None \<and>
   (fs file_path = Inr (header, records) \<longrightarrow>
      load_data frame_of fs file_path (Some 0) = Inr (frame_of header records) \<and>
      read_csv frame_of fs file_path (Some 0) = Inr (frame_of header []))"
  by (simp add: load_data_def truthy_def read_csv_def)

theorem load_data_zero_cap_witness:
  "load_data (\<lambda>h rs. \<lparr>index = map int [0..<length rs], columns = []\<rparr>)
     (\<lambda>p. Inr ([''headline''], [[''a''], [''b''], [''c'']])) ''f.csv'' (Some 0)
   = Inr \<lparr>index = [0, 1, 2], columns = []\<rparr>"
  using load_data_zero_cap [of "\<lambda>h rs. \<lparr>index = map int [0..<length rs], columns = []\<rparr>"
      "\<lambda>p. Inr ([''headline''], [[''a''], [''b''], [''c'']])" "''f.csv''"
      "[''headline'']" "[[''a''], [''b''], [''c'']]"]
  by auto

section \<open>Quality Checker: properties\<close>




lemma example_sort: "sort [1, 2, 3, 4, 5, 100 :: real] = [1, 2, 3, 4, 5, 100]"
  by simp








section \<open>Cleaner: properties\<close>

subsection \<open>Row counts\<close>



lemma index_setitem [simp]: "index (setitem name c df) = index df"
  by (simp add: setitem_def)

lemma len_setitem [simp]: "len (setitem name c df) = len df"
  by (simp add: len_def)

lemma getitem_setitem:
  "getitem name' (setitem name c df) = (if name' = name then Some c else getitem name' df)"
  by (simp add: getitem_def setitem_def update_conv')


lemma index_fill_column [simp]: "index (fill_column col df) = index df"
  by (simp add: fill_column_def split: option.splits)

lemma index_fold_fill_column [simp]: "index (fold fill_column names df) = index df"
  by (induction names arbitrary: df) simp_all





lemma index_assign_from [simp]: "index (assign_from source target f df) = index df"
  by (simp add: assign_from_def split: option.splits)


lemma getitem_assign_from:
  "name \<noteq> target \<Longrightarrow> getitem name (assign_from source target f df) = getitem name df"
  by (simp add: assign_from_def getitem_setitem split: option.splits)

lemma index_temporal_features [simp]: "index (temporal_features df) = index df"
  by (simp add: temporal_features_def Let_def split: option.splits)


lemma getitem_temporal_features:
  "name \<notin> set derived_columns \<Longrightarrow> getitem name (temporal_features df) = getitem name df"
  by (simp add: temporal_features_def Let_def derived_columns_def getitem_assign_from
      split: option.splits)

lemma index_headline_features [simp]: "index (fst (headline_features df)) = index df"
  by (simp add: headline_features_def Let_def split: option.splits)


lemma getitem_headline_features:
  "name \<notin> set derived_columns \<Longrightarrow>
   getitem name (fst (headline_features df)) = getitem name df"
  by (simp add: headline_features_def Let_def derived_columns_def getitem_setitem
      split: option.splits)


subsection \<open>Row selection\<close>

lemma select_simps [simp]:
  "select keep [] = []"
  "select [] xs = []"
  "select (b # bs) (x # xs) = (if b then x # select bs xs else select bs xs)"
  by (simp_all add: select_def)

lemma set_select_subset: "set (select keep xs) \<subseteq> set xs"
  by (auto simp: select_def dest: set_zip_leftD)

lemma select_all_True:
  "length keep = length xs \<Longrightarrow> list_all id keep \<Longrightarrow> select keep xs = xs"
  by (induction keep xs rule: list_induct2) simp_all

lemma select_map: "select keep (map f xs) = map f (select keep xs)"
proof (induction xs arbitrary: keep)
  case Nil
  then show ?case by simp
next
  case (Cons x xs)
  then show ?case by (cases keep) simp_all
qed

lemma length_select:
  "length keep = length xs \<Longrightarrow> length (select keep xs) = length (filter id keep)"
  by (induction keep xs rule: list_induct2) simp_all

lemma set_select:
  "set (select keep xs) = {xs ! i |i. i < length xs \<and> i < length keep \<and> keep ! i}"
  by (auto simp: select_def set_zip image_iff) force

lemma select_append:
  "length keep = length xs \<Longrightarrow>
   select (keep @ keep') (xs @ xs') = select keep xs @ select keep' xs'"
  by (simp add: select_def)

lemma select_conv_nth:
  "length keep = length xs \<Longrightarrow>
   select keep xs = map ((!) xs) (filter ((!) keep) [0..<length keep])"
proof (induction keep arbitrary: xs rule: rev_induct)
  case Nil
  then show ?case by simp
next
  case (snoc b keep)
  then obtain ys y where xs: "xs = ys @ [y]" and len: "length keep = length ys"
    by (cases xs rule: rev_cases) auto
  let ?n = "length keep"
  have f: "filter ((!) (keep @ [b])) [0..<?n] = filter ((!) keep) [0..<?n]"
    by (rule filter_cong) (auto simp: nth_append)
  have m: "map ((!) (ys @ [y])) (filter ((!) keep) [0..<?n])
         = map ((!) ys) (filter ((!) keep) [0..<?n])"
    by (rule map_cong) (auto simp: nth_append len)
  have "select (keep @ [b]) xs = select keep ys @ (if b then [y] else [])"
    using len by (simp add: xs select_append)
  also have "select keep ys = map ((!) (ys @ [y])) (filter ((!) (keep @ [b])) [0..<?n])"
    unfolding f m by (rule snoc.IH [OF len])
  also have "(if b then [y] else []) = map ((!) (ys @ [y])) (filter ((!) (keep @ [b])) [?n])"
    by (simp add: nth_append len [symmetric])
  finally show ?case
    by (simp add: xs)
qed

subsection \<open>Duplicates\<close>

lemma length_duplicated_from [simp]: "length (duplicated_from seen rs) = length rs"
  by (induction rs arbitrary: seen) simp_all

lemma length_duplicated [simp]: "length (duplicated rs) = length rs"
  by (simp add: duplicated_def)

lemma duplicated_from_nth:
  "i < length rs \<Longrightarrow> duplicated_from seen rs ! i = (rs ! i \<in> set seen \<union> set (take i rs))"
proof (induction rs arbitrary: seen i)
  case Nil
  then show ?case by simp
next
  case (Cons r rs)
  then show ?case by (cases i) auto
qed

lemma duplicated_nth:
  "i < length rs \<Longrightarrow> duplicated rs ! i = (rs ! i \<in> set (take i rs))"
  by (simp add: duplicated_def duplicated_from_nth)

lemma first_occurrences_distinct:
  "distinct (select (map Not (duplicated_from seen rs)) rs) \<and>
   set (select (map Not (duplicated_from seen rs)) rs) \<inter> set seen = {}"
proof (induction rs arbitrary: seen)
  case Nil
  then show ?case by simp
next
  case (Cons r rs)
  show ?case using Cons [of "r # seen"] by auto
qed

lemma duplicated_from_distinct:
  "distinct rs \<Longrightarrow> set rs \<inter> set seen = {} \<Longrightarrow>
   duplicated_from seen rs = map (\<lambda>r. False) rs"
  by (induction rs arbitrary: seen) auto

lemma duplicated_distinct: "distinct rs \<Longrightarrow> duplicated rs = map (\<lambda>r. False) rs"
  by (simp add: duplicated_def duplicated_from_distinct)

lemma duplicated_first_occurrences:
  "duplicated (select (map Not (duplicated rs)) rs)
     = map (\<lambda>r. False) (select (map Not (duplicated rs)) rs)"
  using first_occurrences_distinct [of "[]" rs]
  by (simp add: duplicated_def duplicated_from_distinct)

subsection \<open>Frames\<close>

lemma wf_cells_length:
  "wf_df df \<Longrightarrow> (name, c) \<in> set (columns df) \<Longrightarrow> length (cells c) = len df"
  by (auto simp: wf_df_def list_all_iff)

lemma index_take_rows [simp]: "index (take_rows keep df) = select keep (index df)"
  by (simp add: take_rows_def)

lemma columns_take_rows:
  "columns (take_rows keep df) =
     map (\<lambda>(name, c). (name, c\<lparr>cells := select keep (cells c)\<rparr>)) (columns df)"
  by (simp add: take_rows_def)

lemma names_take_rows [simp]: "column_names (take_rows keep df) = column_names df"
  by (simp add: column_names_def columns_take_rows case_prod_unfold comp_def)

lemma len_take_rows:
  "length keep = len df \<Longrightarrow> len (take_rows keep df) = length (filter id keep)"
  by (simp add: len_def length_select)

lemma wf_take_rows:
  assumes "wf_df df" "length keep = len df"
  shows "wf_df (take_rows keep df)"
proof -
  have "length (select keep (cells c)) = len (take_rows keep df)"
    if "(name, c) \<in> set (columns df)" for name c
    using wf_cells_length [OF assms(1) that] assms(2)
    by (simp add: len_take_rows length_select)
  then show ?thesis
    using assms(1) by (auto simp: wf_df_def list_all_iff columns_take_rows)
qed

lemma take_rows_all_True:
  assumes "wf_df df" "length keep = len df" "list_all id keep"
  shows "take_rows keep df = df"
proof -
  have i: "select keep (index df) = index df"
    using assms by (simp add: select_all_True len_def)
  have "(\<lambda>(name, c). (name, c\<lparr>cells := select keep (cells c)\<rparr>)) x = x"
    if "x \<in> set (columns df)" for x
  proof -
    obtain name c where x: "x = (name, c)" by (cases x)
    have "select keep (cells c) = cells c"
      using wf_cells_length [OF assms(1), of name c] that assms(2,3)
      by (simp add: x select_all_True)
    then show ?thesis by (simp add: x)
  qed
  then have "map (\<lambda>(name, c). (name, c\<lparr>cells := select keep (cells c)\<rparr>)) (columns df)
      = columns df"
    by (simp add: map_idI)
  then show ?thesis by (simp add: take_rows_def i)
qed

lemma length_rows [simp]: "length (rows df) = len df"
  by (simp add: rows_def)

lemma rows_nth: "i < len df \<Longrightarrow> rows df ! i = row_at df i"
  by (simp add: rows_def)

lemma row_at_mem: "(name, c) \<in> set (columns df) \<Longrightarrow> cells c ! i \<in> set (row_at df i)"
  by (force simp: row_at_def)

lemma row_at_eqD:
  "row_at df i = row_at df j \<Longrightarrow> (name, c) \<in> set (columns df) \<Longrightarrow> cells c ! i = cells c ! j"
  by (auto simp: row_at_def)

lemma rows_take_rows:
  assumes wf: "wf_df df" and k: "length keep = len df"
  shows "rows (take_rows keep df) = select keep (rows df)"
proof -
  let ?idx = "filter ((!) keep) [0..<length keep]"
  have li: "len (take_rows keep df) = length ?idx"
    using k by (simp add: len_def select_conv_nth)
  have r: "row_at (take_rows keep df) j = row_at df (?idx ! j)" if "j < length ?idx" for j
  proof -
    have "cells (c\<lparr>cells := select keep (cells c)\<rparr>) ! j = cells c ! (?idx ! j)"
      if "(name, c) \<in> set (columns df)" for name c
      using wf_cells_length [OF wf that] k \<open>j < length ?idx\<close>
      by (simp add: select_conv_nth)
    then show ?thesis
      by (auto simp: row_at_def columns_take_rows)
  qed
  have "rows (take_rows keep df) = map (\<lambda>j. row_at df (?idx ! j)) [0..<length ?idx]"
    unfolding rows_def li by (rule map_cong) (simp_all add: r)
  also have "\<dots> = map (row_at df) (map ((!) ?idx) [0..<length ?idx])"
    by (simp add: comp_def del: map_nth)
  also have "\<dots> = map (row_at df) ?idx"
    by (simp only: map_nth)
  also have "\<dots> = map ((!) (rows df)) ?idx"
    by (rule map_cong) (auto simp: rows_nth k)
  also have "\<dots> = select keep (rows df)"
    using k by (simp add: select_conv_nth)
  finally show ?thesis .
qed

lemma length_kept_rows [simp]: "length (kept_rows df) = len df"
  by (simp add: kept_rows_def len_def)

lemma drop_duplicates_take_rows:
  "wf_df df \<Longrightarrow> drop_duplicates df = take_rows (kept_rows df) df"
  by (auto simp: drop_duplicates_def kept_rows_def take_rows_all_True len_def list_all_iff)



lemma kept_rows_values:
  assumes wf: "wf_df df" and c: "(name, c) \<in> set (columns df)"
  shows "set (select (kept_rows df) (cells c)) = set (cells c)"
proof (cases "frame_empty df")
  case True
  then show ?thesis
    using wf_cells_length [OF wf c]
    by (simp add: kept_rows_def select_all_True len_def list_all_iff)
next
  case False
  have lc: "length (cells c) = len df" by (rule wf_cells_length [OF wf c])
  have "x \<in> set (select (map Not (duplicated (rows df))) (cells c))" if "x \<in> set (cells c)" for x
  proof -
    have "\<exists>i<length (cells c). cells c ! i = x"
      using that by (simp add: in_set_conv_nth)
    then obtain i where i: "i < len df" "cells c ! i = x"
      unfolding lc by blast
    define j where "j = (LEAST j. j < len df \<and> rows df ! j = rows df ! i)"
    have ex: "i < len df \<and> rows df ! i = rows df ! i" using i by simp
    have "j < len df \<and> rows df ! j = rows df ! i"
      unfolding j_def by (rule LeastI [of _ i]) (rule ex)
    then have j: "j < len df" "rows df ! j = rows df ! i"
      by blast+
    have least: "rows df ! k \<noteq> rows df ! i" if "k < j" for k
    proof -
      have "\<not> (k < len df \<and> rows df ! k = rows df ! i)"
        using that unfolding j_def by (rule not_less_Least)
      moreover have "k < len df" using that j(1) by simp
      ultimately show ?thesis by simp
    qed
    have "rows df ! j \<notin> set (take j (rows df))"
    proof
      assume "rows df ! j \<in> set (take j (rows df))"
      then obtain k where "k < j" "k < len df" "rows df ! k = rows df ! j"
        using j(1) by (auto simp: in_set_conv_nth)
      then show False using least j(2) by simp
    qed
    then have keep: "map Not (duplicated (rows df)) ! j"
      using j(1) by (simp add: duplicated_nth)
    have "row_at df j = row_at df i" using j i by (simp add: rows_nth)
    then have "cells c ! j = cells c ! i" by (rule row_at_eqD [OF _ c])
    then have "cells c ! j = x" using i by simp
    then have "\<exists>k. x = cells c ! k \<and> k < length (cells c) \<and>
        k < length (map Not (duplicated (rows df))) \<and> map Not (duplicated (rows df)) ! k"
      using keep j(1) lc by (intro exI [of _ j]) simp
    then show ?thesis unfolding set_select by blast
  qed
  then have "set (cells c) \<subseteq> set (select (map Not (duplicated (rows df))) (cells c))"
    by blast
  moreover have "set (select (map Not (duplicated (rows df))) (cells c)) \<subseteq> set (cells c)"
    by (rule set_select_subset)
  ultimately have "set (select (map Not (duplicated (rows df))) (cells c)) = set (cells c)"
    by blast
  then show ?thesis
    using False by (simp add: kept_rows_def)
qed

lemma drop_duplicates_idem:
  assumes wf: "wf_df df"
  shows "drop_duplicates (drop_duplicates df) = drop_duplicates df"
proof (cases "frame_empty df")
  case True
  then show ?thesis by (simp add: drop_duplicates_def)
next
  case False
  let ?keep = "map Not (duplicated (rows df))"
  let ?y = "take_rows ?keep df"
  have y: "drop_duplicates df = ?y" using False by (simp add: drop_duplicates_def)
  have wfy: "wf_df ?y" by (rule wf_take_rows [OF wf]) simp
  have "rows ?y = select ?keep (rows df)" by (rule rows_take_rows [OF wf]) simp
  then have "duplicated (rows ?y) = map (\<lambda>r. False) (rows ?y)"
    by (simp add: duplicated_first_occurrences)
  then have "take_rows (map Not (duplicated (rows ?y))) ?y = ?y"
    using take_rows_all_True [OF wfy, of "map Not (duplicated (rows ?y))"]
    by (simp add: list_all_iff)
  then show ?thesis
    unfolding y by (simp add: drop_duplicates_def)
qed


subsection \<open>Column-wise changes\<close>

lemma index_apply_columns [simp]: "index (apply_columns f df) = index df"
  by (simp add: apply_columns_def)

lemma len_apply_columns [simp]: "len (apply_columns f df) = len df"
  by (simp add: len_def)

lemma columns_apply_columns:
  "columns (apply_columns f df) = map (\<lambda>(name, c). (name, f name c)) (columns df)"
  by (simp add: apply_columns_def)

lemma names_apply_columns [simp]: "column_names (apply_columns f df) = column_names df"
  by (simp add: column_names_def columns_apply_columns case_prod_unfold comp_def)

lemma apply_columns_id:
  assumes "\<And>name c. (name, c) \<in> set (columns df) \<Longrightarrow> f name c = c"
  shows "apply_columns f df = df"
proof -
  have "map (\<lambda>(name, c). (name, f name c)) (columns df) = columns df"
    by (rule map_idI) (auto simp: assms)
  then show ?thesis by (simp add: apply_columns_def)
qed

lemma apply_columns_cong:
  assumes "\<And>name c. (name, c) \<in> set (columns df) \<Longrightarrow> f name c = g name c"
  shows "apply_columns f df = apply_columns g df"
proof -
  have "map (\<lambda>(name, c). (name, f name c)) (columns df)
      = map (\<lambda>(name, c). (name, g name c)) (columns df)"
    by (rule map_cong) (auto simp: assms)
  then show ?thesis by (simp add: apply_columns_def)
qed

lemma apply_columns_comp:
  "apply_columns f (apply_columns g df) = apply_columns (\<lambda>name c. f name (g name c)) df"
  by (simp add: apply_columns_def case_prod_unfold comp_def)

lemma wf_apply_columns:
  assumes "wf_df df"
    and "\<And>name c. (name, c) \<in> set (columns df) \<Longrightarrow> length (cells (f name c)) = length (cells c)"
  shows "wf_df (apply_columns f df)"
  using assms by (auto simp: wf_df_def list_all_iff columns_apply_columns)

lemma take_rows_apply_columns:
  "take_rows keep df =
     (apply_columns (\<lambda>name c. c\<lparr>cells := select keep (cells c)\<rparr>) df)
       \<lparr>index := select keep (index df)\<rparr>"
  by (simp add: take_rows_def apply_columns_def)

lemma getitem_mem:
  "distinct (column_names df) \<Longrightarrow> getitem name df = Some c \<longleftrightarrow> (name, c) \<in> set (columns df)"
  by (simp add: getitem_def column_names_def)

lemma getitem_names:
  "getitem name df \<noteq> None \<longleftrightarrow> name \<in> set (column_names df)"
  by (auto simp: getitem_def column_names_def map_of_eq_None_iff)

lemma update_existing:
  "distinct (map fst al) \<Longrightarrow> map_of al k = Some v \<Longrightarrow>
   AList.update k v' al = map (\<lambda>(n, x). (n, if n = k then v' else x)) al"
proof (induction al)
  case Nil
  then show ?case by simp
next
  case (Cons p al)
  obtain n x where p: "p = (n, x)" by (cases p)
  show ?case
  proof (cases "n = k")
    case True
    have "map (\<lambda>(n, x). (n, if n = k then v' else x)) al = al"
      using Cons.prems(1) True by (intro map_idI) (auto simp: p image_iff)
    then show ?thesis using True by (simp add: p)
  next
    case False
    then show ?thesis using Cons by (simp add: p)
  qed
qed

lemma setitem_existing:
  "distinct (column_names df) \<Longrightarrow> getitem name df = Some c \<Longrightarrow>
   setitem name c' df = apply_columns (\<lambda>n x. if n = name then c' else x) df"
  by (simp add: setitem_def apply_columns_def getitem_def column_names_def update_existing)

subsection \<open>The fill loop\<close>

lemma null_count_pos: "0 < null_count c \<longleftrightarrow> list_ex isnull (cells c)"
  by (auto simp: null_count_def list_ex_iff filter_empty_conv)

lemma fill_column_fill_values:
  "fill_column col df =
     (case getitem col df of None \<Rightarrow> df | Some c \<Rightarrow> setitem col (fill_values c) df)"
proof (cases "getitem col df")
  case None
  then show ?thesis by (simp add: fill_column_def)
next
  case (Some c)
  have same: "setitem col c df = df"
    using Some by (simp add: setitem_def getitem_def update_triv)
  have n: "fillna_num (median c) c = fill_values c" if "list_ex isnull (cells c)"
      "dtype c = Int64 \<or> dtype c = Float64"
    using that by (auto simp: fillna_num_def fill_values_def isnull_def split: option.splits)
  have s: "fillna_str ''Unknown'' c = fill_values c" if "list_ex isnull (cells c)"
      "\<not> (dtype c = Int64 \<or> dtype c = Float64)"
    using that by (auto simp: fillna_str_def fill_values_def isnull_def)
  have z: "fill_values c = c" if "\<not> list_ex isnull (cells c)"
    using that by (simp add: fill_values_def)
  show ?thesis
    using Some n s z same by (auto simp: fill_column_def null_count_pos)
qed

lemma fold_fill_columns:
  "distinct (map fst (p @ q)) \<Longrightarrow>
   fold fill_column (map fst q) \<lparr>index = ix, columns = p @ q\<rparr>
     = \<lparr>index = ix, columns = p @ map (\<lambda>(name, c). (name, fill_values c)) q\<rparr>"
proof (induction q arbitrary: p)
  case Nil
  then show ?case by simp
next
  case (Cons x q)
  obtain name c where x: "x = (name, c)" by (cases x)
  let ?df = "\<lparr>index = ix, columns = p @ (name, c) # q\<rparr>"
  have d: "distinct (map fst (p @ (name, c) # q))" using Cons.prems by (simp add: x)
  have "map_of p name = None" using d by (auto simp: map_of_eq_None_iff)
  then have g: "getitem name ?df = Some c"
    by (simp add: getitem_def map_add_Some_iff)
  have "setitem name (fill_values c) ?df
      = \<lparr>index = ix, columns = map (\<lambda>(n, y). (n, if n = name then fill_values c else y))
            (p @ (name, c) # q)\<rparr>"
    using setitem_existing [of ?df name c "fill_values c"] d g
    by (simp add: column_names_def apply_columns_def)
  also have "map (\<lambda>(n, y). (n, if n = name then fill_values c else y)) (p @ (name, c) # q)
      = (p @ [(name, fill_values c)]) @ q"
  proof -
    have "map (\<lambda>(n, y). (n, if n = name then fill_values c else y)) p = p"
      using d by (intro map_idI) (auto simp: image_iff)
    moreover have "map (\<lambda>(n, y). (n, if n = name then fill_values c else y)) q = q"
      using d by (intro map_idI) (auto simp: image_iff)
    ultimately show ?thesis by simp
  qed
  finally have step: "fill_column name ?df
      = \<lparr>index = ix, columns = (p @ [(name, fill_values c)]) @ q\<rparr>"
    by (simp add: fill_column_fill_values g)
  have d': "distinct (map fst ((p @ [(name, fill_values c)]) @ q))" using d by simp
  show ?case
    using Cons.IH [OF d'] step by (simp add: x)
qed

lemma fill_missing_apply_columns:
  assumes "distinct (column_names df)"
  shows "fill_missing df = apply_columns (\<lambda>name. fill_values) df"
proof (cases df)
  case (fields ix cs)
  have "fold fill_column (map fst cs) \<lparr>index = ix, columns = [] @ cs\<rparr>
      = \<lparr>index = ix, columns = [] @ map (\<lambda>(name, c). (name, fill_values c)) cs\<rparr>"
    by (rule fold_fill_columns) (use assms fields in \<open>simp add: column_names_def\<close>)
  then show ?thesis
    by (simp add: fill_missing_def apply_columns_def column_names_def fields)
qed

subsection \<open>Date conversion\<close>

lemma coerce_datetime_cases:
  "coerce_datetime p x = Null \<or> (\<exists>t. coerce_datetime p x = Ts t)"
  by (cases x) (auto split: option.splits)

lemma timestamps_to_datetime: "timestamps (to_datetime parse c)"
proof -
  have "case coerce_datetime p x of Null \<Rightarrow> True | Ts t \<Rightarrow> True | _ \<Rightarrow> False" for p x
    using coerce_datetime_cases [of p x] by auto
  then show ?thesis by (simp add: timestamps_def to_datetime_def list_all_iff)
qed

lemma to_datetime_timestamps: "timestamps c \<Longrightarrow> to_datetime parse c = c"
proof -
  assume t: "timestamps c"
  have "coerce_datetime p x = x" if "x \<in> set (cells c)" for p x
    using t that by (cases x) (auto simp: timestamps_def list_all_iff)
  then have "map (coerce_datetime (parse (cells c))) (cells c) = cells c"
    by (simp add: map_idI)
  then show ?thesis using t by (simp add: to_datetime_def timestamps_def)
qed

lemma length_to_datetime [simp]: "length (cells (to_datetime parse c)) = length (cells c)"
  by (simp add: to_datetime_def)

lemma timestamps_restrict: "timestamps c \<Longrightarrow> timestamps (restrict keep c)"
  using set_select_subset [of keep "cells c"]
  by (auto simp: timestamps_def restrict_def list_all_iff)

subsection \<open>Filled columns\<close>

lemma numbers_empty: "numbers cs = [] \<longleftrightarrow> (\<forall>x\<in>set cs. \<not> is_num x)"
proof (induction cs)
  case Nil
  then show ?case by (simp add: numbers_def List.map_filter_simps)
next
  case (Cons x cs)
  then show ?case by (cases x) (simp_all add: numbers_def List.map_filter_simps)
qed

lemma sort_eq_Nil: "sort xs = [] \<longleftrightarrow> xs = []"
  by (metis length_sort length_0_conv)

lemma median_None: "median c = None \<longleftrightarrow> numbers (cells c) = []"
proof (cases "numbers (cells c) = []")
  case True
  then show ?thesis by (simp add: median_def)
next
  case False
  then have "length (sort (numbers (cells c))) \<noteq> 0" by simp
  then have "median c \<noteq> None"
    unfolding median_def Let_def by (simp only: if_False split: if_splits) simp
  then show ?thesis using False by simp
qed

lemma has_null: "list_ex isnull cs \<longleftrightarrow> Null \<in> set cs"
  by (auto simp: list_ex_iff isnull_def)

lemma length_fill_values [simp]: "length (cells (fill_values c)) = length (cells c)"
  by (simp add: fill_values_def split: option.splits)

lemma fill_values_settled:
  "Null \<notin> set (cells (fill_values c)) \<or>
   ((dtype (fill_values c) = Int64 \<or> dtype (fill_values c) = Float64) \<and>
    numbers (cells (fill_values c)) = [])"
  by (auto simp: fill_values_def has_null median_None split: option.splits)

lemma fill_values_fixed:
  assumes "Null \<notin> set (cells c) \<or> ((dtype c = Int64 \<or> dtype c = Float64) \<and> numbers (cells c) = [])"
  shows "fill_values c = c"
proof (cases "Null \<in> set (cells c)")
  case False
  then show ?thesis by (simp add: fill_values_def has_null)
next
  case True
  then have "(dtype c = Int64 \<or> dtype c = Float64) \<and> median c = None"
    using assms by (simp add: median_None)
  then show ?thesis by (auto simp: fill_values_def)
qed

lemma fill_values_stable:
  assumes "dtype c' = dtype (fill_values c)" "set (cells c') = set (cells (fill_values c))"
  shows "fill_values c' = c'"
proof (rule fill_values_fixed)
  show "Null \<notin> set (cells c') \<or> ((dtype c' = Int64 \<or> dtype c' = Float64) \<and> numbers (cells c') = [])"
    using fill_values_settled [of c] assms by (auto simp: numbers_empty)
qed

lemma fill_dates_stable:
  assumes unk: "\<And>ctx. parse ctx (Str ''Unknown'') = None"
    and d: "dtype c' = dtype (fill_values (to_datetime parse c))"
    and s: "set (cells c') = set (cells (fill_values (to_datetime parse c)))"
  shows "fill_values (to_datetime parse c') = c'"
proof (cases "Null \<in> set (cells (to_datetime parse c))")
  case False
  have t: "timestamps (to_datetime parse c)" by (rule timestamps_to_datetime)
  have f: "fill_values (to_datetime parse c) = to_datetime parse c"
    using False by (simp add: fill_values_fixed)
  have "timestamps c'"
    using t d s unfolding f by (simp add: timestamps_def list_all_iff)
  then have "to_datetime parse c' = c'" by (rule to_datetime_timestamps)
  moreover have "Null \<notin> set (cells c')" using s False unfolding f by simp
  ultimately show ?thesis by (simp add: fill_values_fixed)
next
  case True
  let ?t = "to_datetime parse c"
  have t: "timestamps ?t" by (rule timestamps_to_datetime)
  have f: "fill_values ?t =
      \<lparr>dtype = Object, cells = map (\<lambda>x. if x = Null then Str ''Unknown'' else x) (cells ?t)\<rparr>"
    using True by (simp add: fill_values_def has_null to_datetime_def)
  have dt: "dtype c' = Object" using d by (simp add: f)
  have cs: "x = Str ''Unknown'' \<or> (\<exists>t. x = Ts t)" if "x \<in> set (cells c')" for x
  proof -
    have e: "cells (fill_values ?t) = map (\<lambda>x. if x = Null then Str ''Unknown'' else x) (cells ?t)"
      by (simp add: f)
    have "x \<in> set (map (\<lambda>x. if x = Null then Str ''Unknown'' else x) (cells ?t))"
      using that by (simp only: s e)
    then obtain y where y: "x = (if y = Null then Str ''Unknown'' else y)" "y \<in> set (cells ?t)"
      unfolding set_map by (rule imageE)
    then show ?thesis
      using t by (cases y) (auto simp: timestamps_def list_all_iff)
  qed
  have u: "Str ''Unknown'' \<in> set (cells c')"
    using True s by (force simp: f)
  let ?t' = "to_datetime parse c'"
  have n: "Null \<in> set (cells ?t')"
  proof -
    have "coerce_datetime (parse (cells c')) (Str ''Unknown'') = Null"
      by (simp add: unk)
    then show ?thesis using u by (force simp: to_datetime_def)
  qed
  have "map (\<lambda>x. if x = Null then Str ''Unknown'' else x) (cells ?t') = cells c'"
  proof -
    have "(if coerce_datetime (parse (cells c')) x = Null then Str ''Unknown''
           else coerce_datetime (parse (cells c')) x) = x" if "x \<in> set (cells c')" for x
      using cs [OF that] by (auto simp: unk)
    then show ?thesis by (simp add: to_datetime_def comp_def map_idI)
  qed
  then have "fill_values ?t' = \<lparr>dtype = Object, cells = cells c'\<rparr>"
    using n by (simp add: fill_values_def has_null) (simp add: to_datetime_def)
  then show ?thesis using dt by simp
qed



lemma mem_columns_take_rows:
  "(name, c) \<in> set (columns (take_rows keep df)) \<longleftrightarrow>
   (\<exists>c0. (name, c0) \<in> set (columns df) \<and> c = restrict keep c0)"
  by (force simp: columns_take_rows restrict_def image_iff case_prod_unfold)

lemma mem_columns_apply_columns:
  "(name, c) \<in> set (columns (apply_columns f df)) \<longleftrightarrow>
   (\<exists>c0. (name, c0) \<in> set (columns df) \<and> c = f name c0)"
  by (force simp: columns_apply_columns image_iff case_prod_unfold)

lemma dtype_restrict [simp]: "dtype (restrict keep c) = dtype c"
  by (simp add: restrict_def)

lemma cells_restrict [simp]: "cells (restrict keep c) = select keep (cells c)"
  by (simp add: restrict_def)

lemma length_convert_column [simp]:
  "length (cells (convert_column parse fd name c)) = length (cells c)"
  by (simp add: convert_column_def)

subsection \<open>Step 1 as a column-wise change\<close>

lemma setitem_date_apply_columns:
  assumes d: "distinct (column_names df)" and g: "getitem ''date'' df = Some c"
  shows "setitem ''date'' (to_datetime parse c) df = apply_columns (convert_column parse True) df"
proof -
  have "setitem ''date'' (to_datetime parse c) df
      = apply_columns (\<lambda>n x. if n = ''date'' then to_datetime parse c else x) df"
    by (rule setitem_existing [OF d g])
  also have "\<dots> = apply_columns (convert_column parse True) df"
  proof (rule apply_columns_cong)
    fix name x
    assume m: "(name, x) \<in> set (columns df)"
    have "x = c" if "name = ''date''"
      using m that g getitem_mem [OF d, of "''date''" x] by simp
    then show "(if name = ''date'' then to_datetime parse c else x) = convert_column parse True name x"
      by (simp add: convert_column_def)
  qed
  finally show ?thesis .
qed

lemma apply_convert_column_absent:
  assumes "\<not> (fd \<and> ''date'' \<in> set (column_names df))"
  shows "apply_columns (convert_column parse fd) df = df"
proof (rule apply_columns_id)
  fix name c
  assume "(name, c) \<in> set (columns df)"
  then have "name \<in> set (column_names df)" by (force simp: column_names_def)
  then show "convert_column parse fd name c = c"
    using assms by (auto simp: convert_column_def)
qed

lemma convert_dates_keep:
  assumes d: "distinct (column_names df)" and hm: "hm \<noteq> ''drop''"
  shows "convert_dates parse hm fd df = apply_columns (convert_column parse fd) df"
proof (cases "fd \<and> ''date'' \<in> set (column_names df)")
  case True
  then obtain c where g: "getitem ''date'' df = Some c"
    using getitem_names [of "''date''" df] by auto
  show ?thesis
    using True hm g setitem_date_apply_columns [OF d g, of parse]
    by (simp add: convert_dates_def Let_def)
next
  case False
  then have "convert_dates parse hm fd df = df"
    by (auto simp: convert_dates_def)
  then show ?thesis
    using False by (simp add: apply_convert_column_absent)
qed

lemma convert_dates_drop:
  assumes wf: "wf_df df"
  shows "\<exists>keep. length keep = len df \<and>
     convert_dates parse ''drop'' fd df = take_rows keep (apply_columns (convert_column parse fd) df)"
proof -
  let ?a = "apply_columns (convert_column parse fd) df"
  have d: "distinct (column_names df)" using wf by (simp add: wf_df_def)
  have wfa: "wf_df ?a" by (rule wf_apply_columns [OF wf]) simp
  have triv: "?a = take_rows (map (\<lambda>i. True) (index df)) ?a"
    using take_rows_all_True [OF wfa, of "map (\<lambda>i. True) (index df)"]
    by (simp add: len_def list_all_iff)
  show ?thesis
  proof (cases "fd \<and> ''date'' \<in> set (column_names df)")
    case False
    then have "convert_dates parse ''drop'' fd df = df"
      by (auto simp: convert_dates_def)
    then have "convert_dates parse ''drop'' fd df = ?a"
      using False by (simp add: apply_convert_column_absent)
    then show ?thesis using triv by (intro exI [of _ "map (\<lambda>i. True) (index df)"]) (simp add: len_def)
  next
    case True
    then obtain c where g: "getitem ''date'' df = Some c"
      using getitem_names [of "''date''" df] by auto
    have s: "setitem ''date'' (to_datetime parse c) df = ?a"
      using setitem_date_apply_columns [OF d g, of parse] True by simp
    have m: "(''date'', c) \<in> set (columns df)" using g getitem_mem [OF d] by simp
    then have lc: "length (cells c) = len df" by (rule wf_cells_length [OF wf])
    have ga: "getitem ''date'' ?a = Some (to_datetime parse c)"
      unfolding s [symmetric] by (simp add: getitem_setitem)
    show ?thesis
    proof (cases "0 < null_count (to_datetime parse c)")
      case False
      then have "convert_dates parse ''drop'' fd df = ?a"
        using True g s by (simp add: convert_dates_def Let_def)
      then show ?thesis using triv by (intro exI [of _ "map (\<lambda>i. True) (index df)"]) (simp add: len_def)
    next
      case n: True
      have "convert_dates parse ''drop'' fd df
          = take_rows (map (\<lambda>x. \<not> isnull x) (cells (to_datetime parse c))) ?a"
        using True g n s ga by (simp add: convert_dates_def Let_def dropna_subset_def)
      then show ?thesis
        using lc by (intro exI [of _ "map (\<lambda>x. \<not> isnull x) (cells (to_datetime parse c))"]) simp
    qed
  qed
qed

subsection \<open>Dropping rows with missing entries\<close>

lemma dropna_no_nulls:
  assumes wf: "wf_df df" and c: "(name, c) \<in> set (columns df)"
  shows "Null \<notin> set (select (map (\<lambda>r. \<not> list_ex isnull r) (rows df)) (cells c))"
proof
  assume "Null \<in> set (select (map (\<lambda>r. \<not> list_ex isnull r) (rows df)) (cells c))"
  then obtain i where i: "Null = cells c ! i" "i < length (cells c)" "i < len df"
      "\<not> list_ex isnull (rows df ! i)"
    unfolding set_select by auto
  have "cells c ! i \<in> set (row_at df i)" by (rule row_at_mem [OF c])
  then have "list_ex isnull (row_at df i)"
    using i(1) by (auto simp: list_ex_iff isnull_def)
  then show False using i by (simp add: rows_nth)
qed

lemma dropna_id:
  assumes wf: "wf_df df"
    and nn: "\<And>name c. (name, c) \<in> set (columns df) \<Longrightarrow> Null \<notin> set (cells c)"
  shows "dropna df = df"
proof -
  have "\<not> list_ex isnull (row_at df i)" if "i < len df" for i
  proof
    assume "list_ex isnull (row_at df i)"
    then obtain name c where c: "(name, c) \<in> set (columns df)" "cells c ! i = Null"
      by (auto simp: list_ex_iff isnull_def row_at_def)
    have "i < length (cells c)" using wf_cells_length [OF wf c(1)] that by simp
    then have "cells c ! i \<in> set (cells c)" by simp
    then show False using nn [OF c(1)] c(2) by simp
  qed
  then have "list_all id (map (\<lambda>r. \<not> list_ex isnull r) (rows df))"
    by (auto simp: list_all_iff rows_def)
  then show ?thesis
    unfolding dropna_def by (intro take_rows_all_True [OF wf]) simp_all
qed

subsection \<open>Frames that cleaning leaves unchanged\<close>

lemma null_count_zero: "Null \<notin> set (cells c) \<Longrightarrow> null_count c = 0"
  by (auto simp: null_count_def isnull_def filter_empty_conv)

lemma stable_keep:
  assumes wf: "wf_df z" and hm: "hm \<noteq> ''drop''" "hm \<noteq> ''fill''"
    and ts: "\<And>c. fd \<Longrightarrow> (''date'', c) \<in> set (columns z) \<Longrightarrow> timestamps c"
  shows "handle_missing_values hm (convert_dates parse hm fd z) = z"
proof -
  have d: "distinct (column_names z)" using wf by (simp add: wf_df_def)
  have "apply_columns (convert_column parse fd) z = z"
  proof (rule apply_columns_id)
    fix name c
    assume "(name, c) \<in> set (columns z)"
    then show "convert_column parse fd name c = c"
      using ts by (auto simp: convert_column_def to_datetime_timestamps)
  qed
  then have "convert_dates parse hm fd z = z"
    using convert_dates_keep [OF d hm(1), of parse fd] by simp
  then show ?thesis using hm by (simp add: handle_missing_values_def)
qed

lemma stable_drop:
  assumes wf: "wf_df z"
    and nn: "\<And>name c. (name, c) \<in> set (columns z) \<Longrightarrow> Null \<notin> set (cells c)"
    and ts: "\<And>c. fd \<Longrightarrow> (''date'', c) \<in> set (columns z) \<Longrightarrow> timestamps c"
  shows "handle_missing_values ''drop'' (convert_dates parse ''drop'' fd z) = z"
proof -
  have d: "distinct (column_names z)" using wf by (simp add: wf_df_def)
  have "convert_dates parse ''drop'' fd z = z"
  proof (cases "fd \<and> ''date'' \<in> set (column_names z)")
    case False
    then show ?thesis by (auto simp: convert_dates_def)
  next
    case True
    then obtain c where g: "getitem ''date'' z = Some c"
      using getitem_names [of "''date''" z] by auto
    then have m: "(''date'', c) \<in> set (columns z)" using getitem_mem [OF d] by simp
    have t: "to_datetime parse c = c" using ts [OF _ m] True by (simp add: to_datetime_timestamps)
    have s: "setitem ''date'' c z = z"
      using g by (simp add: setitem_def getitem_def update_triv)
    have "null_count c = 0" using nn [OF m] by (rule null_count_zero)
    then show ?thesis using True g t s by (simp add: convert_dates_def Let_def)
  qed
  moreover have "dropna z = z" by (rule dropna_id [OF wf nn])
  ultimately show ?thesis by (simp add: handle_missing_values_def)
qed

lemma fill_after_convert:
  assumes d: "distinct (column_names z)"
  shows "handle_missing_values ''fill'' (convert_dates parse ''fill'' fd z)
     = apply_columns (\<lambda>name c. fill_values (convert_column parse fd name c)) z"
proof -
  have "convert_dates parse ''fill'' fd z = apply_columns (convert_column parse fd) z"
    by (rule convert_dates_keep [OF d]) simp
  moreover have "fill_missing (apply_columns (convert_column parse fd) z)
      = apply_columns (\<lambda>name. fill_values) (apply_columns (convert_column parse fd) z)"
    by (rule fill_missing_apply_columns) (simp add: d)
  ultimately show ?thesis
    by (simp add: handle_missing_values_def apply_columns_comp)
qed

lemma stable_fill:
  assumes d: "distinct (column_names z)"
    and fx: "\<And>name c. (name, c) \<in> set (columns z) \<Longrightarrow>
               fill_values (convert_column parse fd name c) = c"
  shows "handle_missing_values ''fill'' (convert_dates parse ''fill'' fd z) = z"
  unfolding fill_after_convert [OF d] by (rule apply_columns_id) (rule fx)

lemma wf_convert_column: "wf_df df \<Longrightarrow> wf_df (apply_columns (convert_column parse fd) df)"
  by (rule wf_apply_columns) simp_all

lemma date_column_converted:
  assumes "fd" "(''date'', c) \<in> set (columns (apply_columns (convert_column parse fd) df))"
  shows "timestamps c"
  using assms by (auto simp: mem_columns_apply_columns convert_column_def timestamps_to_datetime)

lemma date_column_take_rows:
  assumes "\<And>c. fd \<Longrightarrow> (''date'', c) \<in> set (columns df) \<Longrightarrow> timestamps c"
    and "fd" "(''date'', c) \<in> set (columns (take_rows keep df))"
  shows "timestamps c"
  using assms by (auto simp: mem_columns_take_rows timestamps_restrict)

lemma no_nulls_take_rows:
  assumes "\<And>name c. (name, c) \<in> set (columns df) \<Longrightarrow> Null \<notin> set (cells c)"
    and "(name, c) \<in> set (columns (take_rows keep df))"
  shows "Null \<notin> set (cells c)"
proof -
  obtain c0 where c0: "(name, c0) \<in> set (columns df)" "c = restrict keep c0"
    using assms(2) by (auto simp: mem_columns_take_rows)
  then show ?thesis
    using assms(1) [OF c0(1)] set_select_subset [of keep "cells c0"] by auto
qed

text \<open>
  Claim C4. With \<^verbatim>\<open>remove_duplicates=True\<close>, cleaning the output of the Cleaner again
  under the same policy returns that output unchanged, for a well-formed frame and a
  date parser that does not read the string \<^verbatim>\<open>Unknown\<close> as a date.
\<close>

theorem clean_data_idempotent:
  assumes wf: "wf_df df"
    and unk: "\<forall>ctx. parse ctx (Str ''Unknown'') = None"
  shows "clean_data parse (clean_data parse df True handle_missing fix_dates)
           True handle_missing fix_dates
         = clean_data parse df True handle_missing fix_dates"
proof -
  let ?hm = handle_missing and ?fd = fix_dates
  define x where "x = handle_missing_values ?hm (convert_dates parse ?hm ?fd df)"
  define y where "y = drop_duplicates x"
  have d: "distinct (column_names df)" using wf by (simp add: wf_df_def)
  have first: "clean_data parse df True ?hm ?fd = y"
    by (simp add: clean_data_def Let_def x_def y_def)
  have second: "clean_data parse y True ?hm ?fd
      = drop_duplicates (handle_missing_values ?hm (convert_dates parse ?hm ?fd y))"
    by (simp add: clean_data_def Let_def)
  let ?a = "apply_columns (convert_column parse ?fd) df"
  have wfa: "wf_df ?a" by (rule wf_convert_column [OF wf])
  have main: "wf_df x \<and> handle_missing_values ?hm (convert_dates parse ?hm ?fd y) = y"
  proof (cases "?hm = ''drop''")
    case True
    obtain keep where k: "length keep = len df"
        "convert_dates parse ''drop'' ?fd df = take_rows keep ?a"
      using convert_dates_drop [OF wf] by blast
    let ?b = "take_rows keep ?a"
    have wfb: "wf_df ?b" by (rule wf_take_rows [OF wfa]) (simp add: k)
    have tsb: "timestamps c" if "?fd" "(''date'', c) \<in> set (columns ?b)" for c
      using date_column_take_rows [OF date_column_converted that] .
    have xb: "x = dropna ?b"
      using True k by (simp add: x_def handle_missing_values_def)
    have wfx: "wf_df x"
      unfolding xb dropna_def by (rule wf_take_rows [OF wfb]) simp
    have nnx: "Null \<notin> set (cells c)" if "(name, c) \<in> set (columns x)" for name c
    proof -
      have "(name, c) \<in> set (columns (take_rows (map (\<lambda>r. \<not> list_ex isnull r) (rows ?b)) ?b))"
        using that by (simp add: xb dropna_def)
      then obtain c0 where c0: "(name, c0) \<in> set (columns ?b)"
          "c = restrict (map (\<lambda>r. \<not> list_ex isnull r) (rows ?b)) c0"
        using mem_columns_take_rows [THEN iffD1] by blast
      show ?thesis using dropna_no_nulls [OF wfb c0(1)] by (simp add: c0(2))
    qed
    have tsx: "timestamps c" if "?fd" "(''date'', c) \<in> set (columns x)" for c
    proof -
      have "(''date'', c) \<in> set (columns (take_rows (map (\<lambda>r. \<not> list_ex isnull r) (rows ?b)) ?b))"
        using that(2) by (simp add: xb dropna_def)
      then show ?thesis
        using date_column_take_rows [of ?fd ?b c] tsb that(1) by blast
    qed
    have yx: "y = take_rows (kept_rows x) x"
      unfolding y_def by (rule drop_duplicates_take_rows [OF wfx])
    have wfy: "wf_df y" unfolding yx by (rule wf_take_rows [OF wfx]) simp
    have nny: "Null \<notin> set (cells c)" if "(name, c) \<in> set (columns y)" for name c
    proof -
      have "(name, c) \<in> set (columns (take_rows (kept_rows x) x))"
        using that yx by simp
      then show ?thesis
        using no_nulls_take_rows [of x name c] nnx by blast
    qed
    have tsy: "timestamps c" if "?fd" "(''date'', c) \<in> set (columns y)" for c
    proof -
      have "(''date'', c) \<in> set (columns (take_rows (kept_rows x) x))"
        using that(2) yx by simp
      then show ?thesis
        using date_column_take_rows [of ?fd x c] tsx that(1) by blast
    qed
    have "handle_missing_values ''drop'' (convert_dates parse ''drop'' ?fd y) = y"
      by (rule stable_drop [OF wfy nny tsy])
    then show ?thesis using True wfx by simp
  next
    case nd: False
    show ?thesis
    proof (cases "?hm = ''fill''")
      case True
      let ?g = "\<lambda>name c. fill_values (convert_column parse ?fd name c)"
      have xg: "x = apply_columns ?g df"
        using True fill_after_convert [OF d, of parse ?fd] by (simp add: x_def)
      have wfx: "wf_df x" unfolding xg by (rule wf_apply_columns [OF wf]) simp
      have yx: "y = take_rows (kept_rows x) x"
        unfolding y_def by (rule drop_duplicates_take_rows [OF wfx])
      have dy: "distinct (column_names y)" using wfx by (simp add: yx wf_df_def)
      have fx: "?g name c = c" if "(name, c) \<in> set (columns y)" for name c
      proof -
        have "(name, c) \<in> set (columns (take_rows (kept_rows x) x))"
          using that yx by simp
        then obtain c1 where c1: "(name, c1) \<in> set (columns x)" "c = restrict (kept_rows x) c1"
          using mem_columns_take_rows [THEN iffD1] by blast
        have "(name, c1) \<in> set (columns (apply_columns ?g df))"
          using c1(1) xg by simp
        then obtain c0 where c0: "(name, c0) \<in> set (columns df)" "c1 = ?g name c0"
          using mem_columns_apply_columns [THEN iffD1] by blast
        have dt: "dtype c = dtype c1" by (simp add: c1(2))
        have st: "set (cells c) = set (cells c1)"
          using kept_rows_values [OF wfx c1(1)] by (simp add: c1(2))
        show ?thesis
        proof (cases "?fd \<and> name = ''date''")
          case True
          have "fill_values (to_datetime parse c) = c"
            by (rule fill_dates_stable [of parse c c0])
               (use unk dt st c0(2) True in \<open>simp_all add: convert_column_def\<close>)
          then show ?thesis using True by (simp add: convert_column_def)
        next
          case False
          have "fill_values c = c"
            by (rule fill_values_stable [of c c0])
               (use dt st c0(2) False in \<open>auto simp: convert_column_def\<close>)
          then show ?thesis using False by (auto simp: convert_column_def)
        qed
      qed
      have "handle_missing_values ''fill'' (convert_dates parse ''fill'' ?fd y) = y"
        by (rule stable_fill [OF dy fx])
      then show ?thesis using True wfx by simp
    next
      case nf: False
      have xa: "x = ?a"
        using nd nf convert_dates_keep [OF d nd, of parse ?fd]
        by (simp add: x_def handle_missing_values_def)
      have wfx: "wf_df x" unfolding xa by (rule wfa)
      have tsx: "timestamps c" if "?fd" "(''date'', c) \<in> set (columns x)" for c
        using that unfolding xa by (rule date_column_converted)
      have yx: "y = take_rows (kept_rows x) x"
        unfolding y_def by (rule drop_duplicates_take_rows [OF wfx])
      have wfy: "wf_df y" unfolding yx by (rule wf_take_rows [OF wfx]) simp
      have tsy: "timestamps c" if "?fd" "(''date'', c) \<in> set (columns y)" for c
      proof -
        have "(''date'', c) \<in> set (columns (take_rows (kept_rows x) x))"
          using that(2) yx by simp
        then show ?thesis
          using date_column_take_rows [of ?fd x c] tsx that(1) by blast
      qed
      have "handle_missing_values ?hm (convert_dates parse ?hm ?fd y) = y"
        by (rule stable_keep [OF wfy nd nf tsy])
      then show ?thesis using wfx by simp
    qed
  qed
  have "drop_duplicates y = y"
    unfolding y_def using main by (simp add: drop_duplicates_idem)
  then show ?thesis
    unfolding first second using main by simp
qed

subsection \<open>The fill policy\<close>




lemma clean_data_fill_columns:
  assumes wf: "wf_df df"
  shows "clean_data parse df rd ''fill'' fd =
     (let filled = apply_columns (\<lambda>name c. fill_values (convert_column parse fd name c)) df
      in if rd then drop_duplicates filled else filled)"
proof -
  have d: "distinct (column_names df)" using wf by (simp add: wf_df_def)
  show ?thesis
    by (simp add: clean_data_def Let_def fill_after_convert [OF d])
qed




section \<open>Feature Builder: properties\<close>

text \<open>
  Whether \<^verbatim>\<open>preprocess_data\<close> returns: without a \<^verbatim>\<open>date\<close> column it always
  raises; with a \<^verbatim>\<open>date\<close> column whose entries can be compared, and a
  \<^verbatim>\<open>headline\<close> column that is absent or of object dtype, it returns.
\<close>

lemma temporal_features_without_date:
  "getitem ''date'' df = None \<Longrightarrow> temporal_features df = df"
  by (simp add: temporal_features_def)

lemma getitem_date_headline_features:
  "getitem ''date'' (fst (headline_features df)) = getitem ''date'' df"
  by (rule getitem_headline_features) (simp add: derived_columns_def)

lemma preprocess_data_without_date:
  assumes "getitem ''date'' df = None"
  shows "snd (preprocess_data df) \<noteq> None"
proof -
  obtain df' r where h: "headline_features df = (df', r)" by (cases "headline_features df")
  have "getitem ''date'' df' = None"
    using getitem_date_headline_features [of df] assms h by simp
  then show ?thesis
    using assms h
    by (cases r) (simp_all add: preprocess_data_def temporal_features_without_date
        date_range_message_def)
qed

lemma headline_features_returns:
  assumes "getitem ''headline'' df = None \<or> (\<exists>h. getitem ''headline'' df = Some h \<and> dtype h = Object)"
  shows "snd (headline_features df) = None"
  using assms by (auto simp: headline_features_def Let_def getitem_setitem)

lemma getitem_headline_temporal_features:
  "getitem ''headline'' (temporal_features df) = getitem ''headline'' df"
  by (rule getitem_temporal_features) (simp add: derived_columns_def)

lemma getitem_date_temporal_features:
  "getitem ''date'' (temporal_features df) = getitem ''date'' df"
  by (rule getitem_temporal_features) (simp add: derived_columns_def)

lemma preprocess_data_returns:
  assumes d: "getitem ''date'' df = Some d" and c: "comparable d"
    and h: "getitem ''headline'' df = None \<or> (\<exists>h. getitem ''headline'' df = Some h \<and> dtype h = Object)"
  shows "snd (preprocess_data df) = None"
proof -
  let ?t = "temporal_features df"
  obtain df' r where hf: "headline_features ?t = (df', r)" by (cases "headline_features ?t")
  have "snd (headline_features ?t) = None"
    by (rule headline_features_returns) (simp add: getitem_headline_temporal_features h)
  then have r: "r = None" using hf by simp
  have "getitem ''date'' df' = Some d"
    using getitem_date_headline_features [of ?t] hf d by (simp add: getitem_date_temporal_features)
  then show ?thesis
    using hf r c by (simp add: preprocess_data_def date_range_message_def)
qed

text \<open>
  Claim C1. On a frame without a \<^verbatim>\<open>date\<close> column \<^verbatim>\<open>preprocess_data\<close> adds the
  headline metrics and then raises KeyError, when the closing message reads
  \<^verbatim>\<open>df['date']\<close>: it does not complete.
\<close>

theorem preprocess_data_raises_without_date:
  "preprocess_data
     \<lparr>index = [0], columns = [(''headline'', \<lparr>dtype = Object, cells = [Str ''Stocks rally'']\<rparr>)]\<rparr>
   = (\<lparr>index = [0],
       columns = [(''headline'', \<lparr>dtype = Object, cells = [Str ''Stocks rally'']\<rparr>),
                  (''headline_length'', \<lparr>dtype = Int64, cells = [Num 12]\<rparr>),
                  (''headline_word_count'', \<lparr>dtype = Int64, cells = [Num 2]\<rparr>)]\<rparr>,
      Some (KeyError ''date''))"
  by (simp add: preprocess_data_def temporal_features_def headline_features_def getitem_def
      setitem_def str_len_def str_split_len_def int_column_def isnull_def split_def is_space_def
      date_range_message_def)


section \<open>The sample frame, cleaned and preprocessed\<close>

lemma wf_sample_frame: "wf_df sample_frame"
  by (simp add: wf_df_def sample_frame_def column_names_def len_def)


lemma sample_parse_unknown: "\<forall>ctx. sample_parse ctx (Str ''Unknown'') = None"
  by (simp add: sample_parse_def)

lemma sample_filled:
  "apply_columns (\<lambda>name c. fill_values (convert_column sample_parse True name c)) sample_frame
   = \<lparr>index = [0, 1, 2, 3],
      columns =
        [(''date'', \<lparr>dtype = Object,
                     cells = [Ts (18418 * ns_per_day), Ts (18418 * ns_per_day), Str ''Unknown'',
                              Ts (18419 * ns_per_day)]\<rparr>),
         (''headline'', \<lparr>dtype = Object,
                         cells = [Str ''Stocks rally'', Str ''Stocks rally'', Str ''Unknown'',
                                  Str ''Fed holds'']\<rparr>),
         (''volume'', \<lparr>dtype = Float64, cells = [Num 10, Num 10, Num 10, Num 30]\<rparr>)]\<rparr>"
  by (simp add: apply_columns_def sample_frame_def fill_values_def convert_column_def
      to_datetime_def sample_parse_def isnull_def median_def numbers_def List.map_filter_simps
      Let_def)

lemma sample_deduplicated:
  "drop_duplicates
     \<lparr>index = [0, 1, 2, 3],
      columns =
        [(''date'', \<lparr>dtype = Object,
                     cells = [Ts (18418 * ns_per_day), Ts (18418 * ns_per_day), Str ''Unknown'',
                              Ts (18419 * ns_per_day)]\<rparr>),
         (''headline'', \<lparr>dtype = Object,
                         cells = [Str ''Stocks rally'', Str ''Stocks rally'', Str ''Unknown'',
                                  Str ''Fed holds'']\<rparr>),
         (''volume'', \<lparr>dtype = Float64, cells = [Num 10, Num 10, Num 10, Num 30]\<rparr>)]\<rparr>
   = \<lparr>index = [0, 2, 3],
      columns =
        [(''date'', \<lparr>dtype = Object,
                     cells = [Ts (18418 * ns_per_day), Str ''Unknown'', Ts (18419 * ns_per_day)]\<rparr>),
         (''headline'', \<lparr>dtype = Object,
                         cells = [Str ''Stocks rally'', Str ''Unknown'', Str ''Fed holds'']\<rparr>),
         (''volume'', \<lparr>dtype = Float64, cells = [Num 10, Num 10, Num 30]\<rparr>)]\<rparr>"
  by (simp add: drop_duplicates_def frame_empty_def rows_def row_at_def len_def duplicated_def
      take_rows_def select_def ns_per_day_def upt_conv_Cons)




lemma sample_cleaned:
  "clean_data sample_parse sample_frame True ''fill'' True
   = \<lparr>index = [0, 2, 3],
      columns =
        [(''date'', \<lparr>dtype = Object,
                     cells = [Ts (18418 * ns_per_day), Str ''Unknown'', Ts (18419 * ns_per_day)]\<rparr>),
         (''headline'', \<lparr>dtype = Object,
                         cells = [Str ''Stocks rally'', Str ''Unknown'', Str ''Fed holds'']\<rparr>),
         (''volume'', \<lparr>dtype = Float64, cells = [Num 10, Num 10, Num 30]\<rparr>)]\<rparr>"
  by (simp add: clean_data_fill_columns [OF wf_sample_frame] sample_filled sample_deduplicated)

theorem clean_data_idempotent_witness:
  "wf_df sample_frame \<and>
   clean_data sample_parse
     \<lparr>index = [0, 2, 3],
      columns =
        [(''date'', \<lparr>dtype = Object,
                     cells = [Ts (18418 * ns_per_day), Str ''Unknown'', Ts (18419 * ns_per_day)]\<rparr>),
         (''headline'', \<lparr>dtype = Object,
                         cells = [Str ''Stocks rally'', Str ''Unknown'', Str ''Fed holds'']\<rparr>),
         (''volume'', \<lparr>dtype = Float64, cells = [Num 10, Num 10, Num 30]\<rparr>)]\<rparr>
     True ''fill'' True
   = clean_data sample_parse sample_frame True ''fill'' True"
  using clean_data_idempotent [where df = sample_frame and parse = sample_parse and
      handle_missing = "''fill''" and fix_dates = True, OF wf_sample_frame sample_parse_unknown]
  by (simp add: wf_sample_frame sample_cleaned)


end
